theory Spec2Isabelle
  imports Complex_Main
begin

section \<open>Vertex animation baking (vertex\_animation.py)\<close>

text \<open>
  A shallow embedding of the Blender add-on \<^verbatim>\<open>vertex_animation.py\<close>. Python floats are
  modelled as \<^typ>\<open>real\<close> (exact arithmetic, no rounding, no infinities, no NaN); Python
  exceptions are values of \<^verbatim>\<open>exn\<close>; the host state (\<^verbatim>\<open>context\<close>, \<^verbatim>\<open>bpy.data\<close>, the operator's
  reports and the files written) is one record \<^verbatim>\<open>world\<close> that every effectful function
  takes and returns.
\<close>

subsection \<open>Data model\<close>

datatype exn = IndexError | ZeroDivisionError | ValueError | RuntimeError

type_synonym vec3 = "real \<times> real \<times> real"

text \<open>\<^verbatim>\<open>MeshVertex\<close>: \<^verbatim>\<open>vertex.index\<close>, \<^verbatim>\<open>vertex.co\<close>, \<^verbatim>\<open>vertex.normal\<close>.\<close>

record vertex =
  index :: nat
  co :: vec3
  normal :: vec3

text \<open>\<^verbatim>\<open>MeshLoop\<close>: \<^verbatim>\<open>loop.index\<close>, \<^verbatim>\<open>loop.vertex_index\<close>.\<close>

record loop =
  index :: nat
  vertex_index :: nat

text \<open>\<^verbatim>\<open>MeshUVLoopLayer\<close>: its name and one UV pair per loop (\<^verbatim>\<open>uv_layer.data[i].uv\<close>).\<close>

record uv_layer =
  name :: string
  data :: "(real \<times> real) list"

text \<open>
  A mesh datablock. \<^verbatim>\<open>mesh_id\<close> stands for the identity of the datablock inside
  \<^verbatim>\<open>bpy.data.meshes\<close> (Python variables hold references; the model holds the value
  together with its identity and writes a mutated value back under the same identity).
\<close>

record mesh =
  mesh_id :: nat
  vertices :: "vertex list"
  loops :: "loop list"
  uv_layers :: "uv_layer list"
  users :: nat

text \<open>
  A scene object (\<^verbatim>\<open>ob.name\<close>, \<^verbatim>\<open>ob.type\<close>, \<^verbatim>\<open>ob.mode\<close>, \<^verbatim>\<open>ob.data\<close>, the types of
  \<^verbatim>\<open>ob.modifiers\<close>). \<^verbatim>\<open>evaluated i\<close> is the geometry that
  \<^verbatim>\<open>data.meshes.new_from_object(ob.evaluated_get(depsgraph))\<close> yields when the scene is at
  frame \<^verbatim>\<open>i\<close> (modifiers applied); \<^verbatim>\<open>matrix_world i\<close> is the object's world transform at
  that frame, as a function on points. Both are supplied by the host.
\<close>

record object =
  ob_name :: string
  ob_type :: string
  ob_mode :: string
  ob_data :: mesh
  modifiers :: "string list"
  evaluated :: "int \<Rightarrow> vertex list \<times> loop list"
  matrix_world :: "int \<Rightarrow> vec3 \<Rightarrow> vec3"

text \<open>
  The name of an image. The offset texture's name is an f-string that interpolates two
  floats; it is kept as the two numbers rather than as their decimal rendering.
\<close>

datatype image_name = Offsets_neg_max_pos_max real real | Normals

record image =
  image_id :: nat
  image_name :: image_name
  width :: nat
  height :: nat
  alpha :: bool
  float_buffer :: bool
  pixels :: "real list"
  file_format :: string

text \<open>The messages of \<^verbatim>\<open>self.report({'ERROR'}, ...)\<close>, by the value they interpolate.\<close>

datatype report =
    Modifier_not_allowed string
  | Scene_unit_must_be_metric
  | Vertex_count_exceeds_limit nat
  | Frame_count_exceeds_limit nat

text \<open>
  The host state: the scene settings and selection read through \<^verbatim>\<open>context\<close>, the
  collections of \<^verbatim>\<open>bpy.data\<close>, the reports issued and the images written to disk.
\<close>

record world =
  frame_start :: int
  frame_end :: int
  frame_step :: int
  frame_current :: int
  unit_system :: string
  unit_scale_length :: real
  active_object :: "object option"
  selected_objects :: "object list"
  collection_objects :: "object list"
  filepath :: string
  data_meshes :: "mesh list"
  data_objects :: "object list"
  data_images :: "image list"
  reports :: "report list"
  saved_files :: "image list"

subsection \<open>Encoding: \<^verbatim>\<open>get_vertex_data\<close>\<close>

definition normalize_signed_to_zero_to_one_space :: "real \<Rightarrow> real" where
  "normalize_signed_to_zero_to_one_space x = (x + 1) * 0.5"

text \<open>\<^verbatim>\<open>vertex.co - original[vertex.index].co\<close> on \<^verbatim>\<open>mathutils.Vector\<close>.\<close>

fun vector_sub :: "vec3 \<Rightarrow> vec3 \<Rightarrow> vec3" where
  "vector_sub (a, b, c) (a', b', c') = (a - a', b - b', c - c')"

text \<open>\<^verbatim>\<open>data.meshes.remove(mesh)\<close>: the datablock with that identity leaves the collection.\<close>

definition meshes_remove :: "mesh \<Rightarrow> world \<Rightarrow> world" where
  "meshes_remove m w = w\<lparr>data_meshes := filter (\<lambda>m'. mesh_id m' \<noteq> mesh_id m) (data_meshes w)\<rparr>"

text \<open>
  The inner loop \<^verbatim>\<open>for vertex in mesh.vertices\<close>, with the two output lists as
  accumulators. \<^verbatim>\<open>original[vertex.index]\<close> raises \<^verbatim>\<open>IndexError\<close> out of range.
\<close>

fun vertex_loop ::
  "vertex list \<Rightarrow> vertex list \<Rightarrow> real list \<times> real list \<Rightarrow> exn + (real list \<times> real list)" where
  "vertex_loop original [] acc = Inr acc"
| "vertex_loop original (v # vs) (offsets, normals) =
     (if vertex.index v < length original then
        (case vector_sub (co v) (co (original ! vertex.index v)) of (x, y, z) \<Rightarrow>
         case normal v of (nx, ny, nz) \<Rightarrow>
           vertex_loop original vs
             (offsets @ [x, y, z, 1],
              normals @ [normalize_signed_to_zero_to_one_space nx,
                         normalize_signed_to_zero_to_one_space ny,
                         normalize_signed_to_zero_to_one_space nz,
                         1]))
      else Inl IndexError)"

text \<open>
  The outer loop \<^verbatim>\<open>for mesh in reversed(meshes)\<close>; it is called on the reversed list.
  An exception leaves the world as the completed iterations made it.
\<close>

fun mesh_loop ::
  "vertex list \<Rightarrow> mesh list \<Rightarrow> real list \<times> real list \<Rightarrow> world
     \<Rightarrow> (exn + (real list \<times> real list)) \<times> world" where
  "mesh_loop original [] acc w = (Inr acc, w)"
| "mesh_loop original (m # ms) acc w =
     (case vertex_loop original (vertices m) acc of
        Inl e \<Rightarrow> (Inl e, w)
      | Inr acc' \<Rightarrow>
          mesh_loop original ms acc' (if users m = 0 then meshes_remove m w else w))"

definition get_vertex_data ::
  "world \<Rightarrow> mesh list \<Rightarrow> (exn + (real list \<times> real list)) \<times> world" where
  "get_vertex_data w meshes =
     (case meshes of
        [] \<Rightarrow> (Inl IndexError, w)
      | m0 # _ \<Rightarrow> mesh_loop (vertices m0) (rev meshes) ([], []) w)"

subsection \<open>Normalising and storing: \<^verbatim>\<open>bake_vertex_data\<close>\<close>

text \<open>
  The first loop over \<^verbatim>\<open>range(len(offsets))\<close>: it skips every index with
  \<^verbatim>\<open>(float_index + 1) % 4 == 0\<close> and folds \<^verbatim>\<open>min\<close> and \<^verbatim>\<open>max\<close> over the others.
\<close>

fun scan_loop :: "real list \<Rightarrow> nat list \<Rightarrow> real \<times> real \<Rightarrow> real \<times> real" where
  "scan_loop offsets [] acc = acc"
| "scan_loop offsets (float_index # rest) (lowest_negative_offset, highest_positive_offset) =
     (if float_index \<ge> length offsets \<or> (float_index + 1) mod 4 = 0 then
        scan_loop offsets rest (lowest_negative_offset, highest_positive_offset)
      else
        scan_loop offsets rest
          (min (offsets ! float_index) lowest_negative_offset,
           max (offsets ! float_index) highest_positive_offset))"

text \<open>
  The second loop rewrites \<^verbatim>\<open>offsets\<close> in place. Python's float division raises
  \<^verbatim>\<open>ZeroDivisionError\<close> on a zero divisor.
\<close>

fun rewrite_loop :: "real \<Rightarrow> real \<Rightarrow> nat list \<Rightarrow> real list \<Rightarrow> exn + real list" where
  "rewrite_loop lowest_negative_offset neg_max_plus_pos_max [] offsets = Inr offsets"
| "rewrite_loop lowest_negative_offset neg_max_plus_pos_max (float_index # rest) offsets =
     (if float_index \<ge> length offsets \<or> (float_index + 1) mod 4 = 0 then
        rewrite_loop lowest_negative_offset neg_max_plus_pos_max rest offsets
      else
        (let offsets1 = offsets[float_index := offsets ! float_index + lowest_negative_offset]
         in if neg_max_plus_pos_max = 0 then Inl ZeroDivisionError
            else rewrite_loop lowest_negative_offset neg_max_plus_pos_max rest
                   (offsets1[float_index := offsets1 ! float_index / neg_max_plus_pos_max])))"

text \<open>An identity no datablock of the collection has yet.\<close>

definition fresh_id :: "nat list \<Rightarrow> nat" where
  "fresh_id ids = Suc (fold max ids 0)"

text \<open>
  \<^verbatim>\<open>data.images.new(name, width, height, alpha, float_buffer)\<close>: a blank image joins the
  collection (\<^verbatim>\<open>float_buffer\<close> defaults to False).
\<close>

definition images_new ::
  "image_name \<Rightarrow> nat \<Rightarrow> nat \<Rightarrow> bool \<Rightarrow> bool \<Rightarrow> world \<Rightarrow> image \<times> world" where
  "images_new nm wd ht al fb w =
     (let im = \<lparr>image_id = fresh_id (map image_id (data_images w)), image_name = nm,
                width = wd, height = ht, alpha = al, float_buffer = fb,
                pixels = replicate (4 * wd * ht) 0, file_format = ''TARGA''\<rparr>
      in (im, w\<lparr>data_images := data_images w @ [im]\<rparr>))"

text \<open>A mutated image is written back to the collection under its identity.\<close>

definition image_write :: "image \<Rightarrow> world \<Rightarrow> world" where
  "image_write im w =
     w\<lparr>data_images := map (\<lambda>i. if image_id i = image_id im then im else i) (data_images w)\<rparr>"

text \<open>The extents and divisor computed between the two loops.\<close>

definition lowest_negative_offset :: "real list \<Rightarrow> real" where
  "lowest_negative_offset offsets =
     fst (scan_loop offsets [0..<length offsets] (0, 0)) * (- 1)"

definition highest_positive_offset :: "real list \<Rightarrow> real" where
  "highest_positive_offset offsets = snd (scan_loop offsets [0..<length offsets] (0, 0))"

definition neg_max_plus_pos_max :: "real list \<Rightarrow> real" where
  "neg_max_plus_pos_max offsets =
     (let s = highest_positive_offset offsets + lowest_negative_offset offsets
      in if s = 0 then 1 else s)"

definition bake_vertex_data ::
  "world \<Rightarrow> real list \<Rightarrow> real list \<Rightarrow> nat \<times> nat \<Rightarrow> (exn + (image \<times> image)) \<times> world" where
  "bake_vertex_data w offsets normals texture_size =
     (case rewrite_loop (lowest_negative_offset offsets) (neg_max_plus_pos_max offsets)
             [0..<length offsets] offsets of
        Inl e \<Rightarrow> (Inl e, w)
      | Inr offsets' \<Rightarrow>
          (let (offset_texture, w1) =
                 images_new (Offsets_neg_max_pos_max (lowest_negative_offset offsets)
                               (highest_positive_offset offsets))
                   (fst texture_size) (snd texture_size) True True w;
               (normal_texture, w2) =
                 images_new Normals (fst texture_size) (snd texture_size) True False w1;
               offset_texture' = offset_texture\<lparr>pixels := offsets'\<rparr>;
               normal_texture' = normal_texture\<lparr>pixels := normals\<rparr>
           in (Inr (offset_texture', normal_texture'),
               image_write normal_texture' (image_write offset_texture' w2))))"

subsection \<open>The export mesh: \<^verbatim>\<open>create_export_mesh_object\<close>\<close>

text \<open>
  \<^verbatim>\<open>me.uv_layers.new()\<close>: a layer with one UV pair per loop joins the mesh. A mutated mesh
  is written back to \<^verbatim>\<open>bpy.data.meshes\<close> under its identity.
\<close>

definition uv_layers_new :: "mesh \<Rightarrow> mesh" where
  "uv_layers_new me =
     me\<lparr>uv_layers := uv_layers me @ [\<lparr>name = ''UVMap'', data = replicate (length (loops me)) (0, 0)\<rparr>]\<rparr>"

definition mesh_write :: "mesh \<Rightarrow> world \<Rightarrow> world" where
  "mesh_write me w =
     w\<lparr>data_meshes := map (\<lambda>m. if mesh_id m = mesh_id me then me else m) (data_meshes w)\<rparr>"

text \<open>\<^verbatim>\<open>while len(me.uv_layers) < 2: me.uv_layers.new()\<close>\<close>

function uv_layers_while :: "mesh \<Rightarrow> mesh" where
  "uv_layers_while me =
     (if length (uv_layers me) < 2 then uv_layers_while (uv_layers_new me) else me)"
  by pat_completeness auto
termination
  by (relation "measure (\<lambda>me. 2 - length (uv_layers me))") (auto simp: uv_layers_new_def)

declare uv_layers_while.simps [simp del]

text \<open>
  \<^verbatim>\<open>for loop in me.loops: uv_layer.data[loop.index].uv = (...)\<close> on the data of the second
  layer. The right-hand side is evaluated first (\<^verbatim>\<open>ZeroDivisionError\<close> when the mesh has no
  vertex), then the subscript (\<^verbatim>\<open>IndexError\<close> out of range). The data written so far stays.
\<close>

fun uv_loop :: "nat \<Rightarrow> loop list \<Rightarrow> (real \<times> real) list \<Rightarrow> exn option \<times> (real \<times> real) list" where
  "uv_loop n [] d = (None, d)"
| "uv_loop n (l # ls) d =
     (if n = 0 then (Some ZeroDivisionError, d)
      else if loop.index l < length d then
        uv_loop n ls (d[loop.index l := ((real (vertex_index l) + 0.5) / real n, 128 / 255)])
      else (Some IndexError, d))"

definition create_export_mesh_object :: "world \<Rightarrow> mesh \<Rightarrow> (exn + object) \<times> world" where
  "create_export_mesh_object w me =
     (let me1 = uv_layers_while me;
          uv_layer = (uv_layers me1 ! 1)\<lparr>name := ''vertex_anim''\<rparr>;
          (raised, d) = uv_loop (length (vertices me1)) (loops me1) (data uv_layer);
          me2 = me1\<lparr>uv_layers := (uv_layers me1)[1 := uv_layer\<lparr>data := d\<rparr>]\<rparr>
      in case raised of
           Some e \<Rightarrow> (Inl e, mesh_write me2 w)
         | None \<Rightarrow>
             (let me3 = me2\<lparr>users := users me2 + 1\<rparr>;
                  ob = \<lparr>ob_name = ''export_mesh'', ob_type = ''MESH'', ob_mode = ''OBJECT'',
                        ob_data = me3,
                        modifiers = [], evaluated = (\<lambda>i. (vertices me3, loops me3)),
                        matrix_world = (\<lambda>i p. p)\<rparr>;
                  w1 = mesh_write me3 w
              in (Inr ob, w1\<lparr>data_objects := data_objects w1 @ [ob],
                             collection_objects := collection_objects w1 @ [ob]\<rparr>)))"

subsection \<open>Sampling: \<^verbatim>\<open>frame_range\<close> and \<^verbatim>\<open>get_per_frame_mesh_data\<close>\<close>

text \<open>Python's \<^verbatim>\<open>range(start, stop, step)\<close>; a zero step raises \<^verbatim>\<open>ValueError\<close>.\<close>

definition range_length :: "int \<Rightarrow> int \<Rightarrow> int \<Rightarrow> nat" where
  "range_length start stop step =
     (if 0 < step \<and> start < stop then nat ((stop - start - 1) div step + 1)
      else if step < 0 \<and> stop < start then nat ((start - stop - 1) div (- step) + 1)
      else 0)"

definition py_range :: "int \<Rightarrow> int \<Rightarrow> int \<Rightarrow> exn + int list" where
  "py_range start stop step =
     (if step = 0 then Inl ValueError
      else Inr (map (\<lambda>k. start + int k * step) [0..<range_length start stop step]))"

definition frame_range :: "world \<Rightarrow> exn + int list" where
  "frame_range scene = py_range (frame_start scene) (frame_end scene + 1) (frame_step scene)"

text \<open>
  A \<^verbatim>\<open>bmesh\<close>. \<^verbatim>\<open>from_mesh\<close> appends a mesh's geometry, its loops referring to the appended
  vertices; \<^verbatim>\<open>normal_update\<close> recomputes every vertex normal from the merged geometry by
  the host's rule \<^verbatim>\<open>nrm\<close> (a parameter: the normal of the k-th vertex); \<^verbatim>\<open>to_mesh\<close> writes
  the geometry into a mesh, where every element's index is its position. UV layers of
  the sampled objects are not carried over.
\<close>

record bmesh =
  bm_verts :: "vertex list"
  bm_loops :: "loop list"

definition from_mesh :: "bmesh \<Rightarrow> mesh \<Rightarrow> bmesh" where
  "from_mesh bm me =
     \<lparr>bm_verts = bm_verts bm @ vertices me,
      bm_loops = bm_loops bm @
        map (\<lambda>l. l\<lparr>vertex_index := vertex_index l + length (bm_verts bm)\<rparr>) (loops me)\<rparr>"

definition normal_update :: "(bmesh \<Rightarrow> nat \<Rightarrow> vec3) \<Rightarrow> bmesh \<Rightarrow> bmesh" where
  "normal_update nrm bm =
     bm\<lparr>bm_verts := map (\<lambda>(k, v). v\<lparr>normal := nrm bm k\<rparr>) (enumerate 0 (bm_verts bm))\<rparr>"

definition to_mesh :: "bmesh \<Rightarrow> mesh \<Rightarrow> mesh" where
  "to_mesh bm me =
     me\<lparr>vertices := map (\<lambda>(k, v). v\<lparr>vertex.index := k\<rparr>) (enumerate 0 (bm_verts bm)),
        loops := map (\<lambda>(k, l). l\<lparr>loop.index := k\<rparr>) (enumerate 0 (bm_loops bm))\<rparr>"

text \<open>\<^verbatim>\<open>mesh.transform(matrix)\<close> moves every vertex coordinate.\<close>

definition mesh_transform :: "(vec3 \<Rightarrow> vec3) \<Rightarrow> mesh \<Rightarrow> mesh" where
  "mesh_transform f me = me\<lparr>vertices := map (\<lambda>v. v\<lparr>co := f (co v)\<rparr>) (vertices me)\<rparr>"

text \<open>
  \<^verbatim>\<open>data.meshes.new(name)\<close>, \<^verbatim>\<open>data.meshes.new_from_object(eval_object)\<close> and
  \<^verbatim>\<open>mesh.copy()\<close>: each adds a datablock with a fresh identity and no user.
\<close>

definition meshes_add :: "vertex list \<Rightarrow> loop list \<Rightarrow> uv_layer list \<Rightarrow> world \<Rightarrow> mesh \<times> world" where
  "meshes_add vs ls uvs w =
     (let me = \<lparr>mesh_id = fresh_id (map mesh_id (data_meshes w)), vertices = vs, loops = ls,
                uv_layers = uvs, users = 0\<rparr>
      in (me, w\<lparr>data_meshes := data_meshes w @ [me]\<rparr>))"

definition meshes_new :: "world \<Rightarrow> mesh \<times> world" where
  "meshes_new w = meshes_add [] [] [] w"

definition meshes_new_from_object :: "object \<Rightarrow> world \<Rightarrow> mesh \<times> world" where
  "meshes_new_from_object ob w =
     meshes_add (fst (evaluated ob (frame_current w))) (snd (evaluated ob (frame_current w))) [] w"

definition mesh_copy :: "mesh \<Rightarrow> world \<Rightarrow> mesh \<times> world" where
  "mesh_copy me w = meshes_add (vertices me) (loops me) (uv_layers me) w"

text \<open>The loop \<^verbatim>\<open>for ob in objects\<close> of one frame.\<close>

fun object_loop :: "object list \<Rightarrow> bmesh \<Rightarrow> world \<Rightarrow> bmesh \<times> world" where
  "object_loop [] bm w = (bm, w)"
| "object_loop (ob # obs) bm w =
     (let (me, w1) = meshes_new_from_object ob w;
          me' = mesh_transform (matrix_world ob (frame_current w1)) me;
          w2 = mesh_write me' w1;
          bm' = from_mesh bm me';
          w3 = meshes_remove me' w2
      in object_loop obs bm' w3)"

text \<open>The loop \<^verbatim>\<open>for i in frame_range(context.scene)\<close>, with \<^verbatim>\<open>meshes\<close> as accumulator.\<close>

fun frame_loop ::
  "(bmesh \<Rightarrow> nat \<Rightarrow> vec3) \<Rightarrow> object list \<Rightarrow> int list \<Rightarrow> mesh list \<Rightarrow> world \<Rightarrow> mesh list \<times> world" where
  "frame_loop nrm objects [] meshes w = (meshes, w)"
| "frame_loop nrm objects (i # rest) meshes w =
     (let w1 = w\<lparr>frame_current := i\<rparr>;
          (bm, w2) = object_loop objects \<lparr>bm_verts = [], bm_loops = []\<rparr> w1;
          (me, w3) = meshes_new w2;
          me' = to_mesh (normal_update nrm bm) me;
          w4 = mesh_write me' w3
      in frame_loop nrm objects rest (meshes @ [me']) w4)"

definition get_per_frame_mesh_data ::
  "(bmesh \<Rightarrow> nat \<Rightarrow> vec3) \<Rightarrow> world \<Rightarrow> object list \<Rightarrow> (exn + mesh list) \<times> world" where
  "get_per_frame_mesh_data nrm w objects =
     (case frame_range w of
        Inl e \<Rightarrow> (Inl e, w)
      | Inr frames \<Rightarrow>
          (let (meshes, w') = frame_loop nrm objects frames [] w in (Inr meshes, w')))"

subsection \<open>Saving: \<^verbatim>\<open>save_image_exr\<close>\<close>

text \<open>
  Raises \<^verbatim>\<open>RuntimeError\<close> when the .blend file has never been saved; otherwise sets the
  image's format and writes it. The choice of a free file name (\<^verbatim>\<open>unique_filepath\<close>) only
  decides the path and is left out: \<^verbatim>\<open>saved_files\<close> records the images written.
\<close>

definition save_image_exr :: "world \<Rightarrow> image \<Rightarrow> exn option \<times> world" where
  "save_image_exr w img =
     (if filepath w = [] then (Some RuntimeError, w)
      else (let img' = img\<lparr>file_format := ''OPEN_EXR''\<rparr>;
                w1 = image_write img' w
            in (None, w1\<lparr>saved_files := saved_files w1 @ [img']\<rparr>)))"

subsection \<open>The operator: \<^verbatim>\<open>OBJECT_OT_ProcessAnimMeshes.execute\<close>\<close>

datatype outcome = FINISHED | CANCELLED | Raised exn


definition allowed_modifiers :: "string list" where
  "allowed_modifiers =
     [''ARMATURE'', ''CAST'', ''CURVE'', ''DISPLACE'', ''HOOK'',
      ''LAPLACIANDEFORM'', ''LATTICE'', ''MESH_DEFORM'',
      ''SHRINKWRAP'', ''SIMPLE_DEFORM'', ''SMOOTH'',
      ''CORRECTIVE_SMOOTH'', ''LAPLACIANSMOOTH'',
      ''SURFACE_DEFORM'', ''WARP'', ''WAVE'']"

text \<open>
  Python's \<^verbatim>\<open>round(x, 2)\<close> on exact numbers: to the nearest multiple of 1/100, ties to the
  even one.
\<close>

definition round_half_even :: "real \<Rightarrow> int" where
  "round_half_even x =
     (let f = \<lfloor>x\<rfloor>; d = x - of_int f
      in if d < 1 / 2 then f else if 1 / 2 < d then f + 1 else if even f then f else f + 1)"

definition round2 :: "real \<Rightarrow> real" where
  "round2 x = of_int (round_half_even (x * 100)) / 100"

definition report :: "report \<Rightarrow> world \<Rightarrow> world" where
  "report r w = w\<lparr>reports := reports w @ [r]\<rparr>"

text \<open>The local variables \<^verbatim>\<open>objects\<close>, \<^verbatim>\<open>vertex_count\<close> and \<^verbatim>\<open>frame_count\<close> of \<^verbatim>\<open>execute\<close>.\<close>

definition objects :: "world \<Rightarrow> object list" where
  "objects w = filter (\<lambda>ob. ob_type ob = ''MESH'') (selected_objects w)"

definition vertex_count :: "world \<Rightarrow> nat" where
  "vertex_count w = sum_list (map (\<lambda>ob. length (vertices (ob_data ob))) (objects w))"

text \<open>
  Lines 256 to 265 of \<^verbatim>\<open>execute\<close>: what runs once every check has passed, given
  \<^verbatim>\<open>texture_size = vertex_count, frame_count\<close>.
\<close>

definition sample_and_bake ::
  "(bmesh \<Rightarrow> nat \<Rightarrow> vec3) \<Rightarrow> nat \<times> nat \<Rightarrow> world \<Rightarrow> outcome \<times> world" where
  "sample_and_bake nrm texture_size w =
     (case get_per_frame_mesh_data nrm w (objects w) of
        (Inl e, w1) \<Rightarrow> (Raised e, w1)
      | (Inr meshes, w1) \<Rightarrow>
         (case meshes of
            [] \<Rightarrow> (Raised IndexError, w1)
          | m0 # _ \<Rightarrow>
             (let (export_mesh_data, w2) = mesh_copy m0 w1 in
              case create_export_mesh_object w2 export_mesh_data of
                (Inl e, w3) \<Rightarrow> (Raised e, w3)
              | (Inr ob, w3) \<Rightarrow>
                 (case get_vertex_data w3 meshes of
                    (Inl e, w4) \<Rightarrow> (Raised e, w4)
                  | (Inr (offsets, normals), w4) \<Rightarrow>
                     (case bake_vertex_data w4 offsets normals texture_size of
                        (Inl e, w5) \<Rightarrow> (Raised e, w5)
                      | (Inr (offsets_texture, normals_texture), w5) \<Rightarrow>
                         (case save_image_exr w5 offsets_texture of
                            (Some e, w6) \<Rightarrow> (Raised e, w6)
                          | (None, w6) \<Rightarrow>
                             (case save_image_exr w6 normals_texture of
                                (Some e, w7) \<Rightarrow> (Raised e, w7)
                              | (None, w7) \<Rightarrow> (FINISHED, w7))))))))"

definition execute :: "(bmesh \<Rightarrow> nat \<Rightarrow> vec3) \<Rightarrow> world \<Rightarrow> outcome \<times> world" where
  "execute nrm w =
     (case frame_range w of
        Inl e \<Rightarrow> (Raised e, w)
      | Inr frames \<Rightarrow>
         (case find (\<lambda>t. t \<notin> set allowed_modifiers) (concat (map modifiers (objects w))) of
            Some t \<Rightarrow> (CANCELLED, report (Modifier_not_allowed t) w)
          | None \<Rightarrow>
             if unit_system w \<noteq> ''METRIC'' \<or> round2 (unit_scale_length w) \<noteq> 0.01 then
               (CANCELLED, report Scene_unit_must_be_metric w)
             else if vertex_count w > 8192 then
               (CANCELLED, report (Vertex_count_exceeds_limit (vertex_count w)) w)
             else if length frames > 8192 then
               (CANCELLED, report (Frame_count_exceeds_limit (length frames)) w)
             else sample_and_bake nrm (vertex_count w, length frames) w))"

section \<open>Specification vocabulary\<close>

text \<open>
  Blender keeps every element's \<^verbatim>\<open>index\<close> equal to its position in its collection; a
  mesh whose vertices satisfy this is well formed.
\<close>

definition mesh_wf :: "mesh \<Rightarrow> bool" where
  "mesh_wf m = (map vertex.index (vertices m) = [0..<length (vertices m)])"

definition offset_pixel :: "vertex list \<Rightarrow> vertex \<Rightarrow> real list" where
  "offset_pixel original v =
     (case vector_sub (co v) (co (original ! vertex.index v)) of (x, y, z) \<Rightarrow> [x, y, z, 1])"

definition normal_pixel :: "vertex \<Rightarrow> real list" where
  "normal_pixel v =
     (case normal v of (nx, ny, nz) \<Rightarrow>
        [normalize_signed_to_zero_to_one_space nx,
         normalize_signed_to_zero_to_one_space ny,
         normalize_signed_to_zero_to_one_space nz, 1])"

definition frame_offsets :: "vertex list \<Rightarrow> mesh \<Rightarrow> real list" where
  "frame_offsets original m = concat (map (offset_pixel original) (vertices m))"

definition frame_normals :: "mesh \<Rightarrow> real list" where
  "frame_normals m = concat (map normal_pixel (vertices m))"

text \<open>
  The values the first loop of \<^verbatim>\<open>bake_vertex_data\<close> scans (every channel but the 4th of
  each 4-tuple), the list its second loop leaves, and the property that a flat list is
  made of 4-tuples whose 4th element is 1.
\<close>

definition scanned :: "real list \<Rightarrow> real list" where
  "scanned offsets =
     map (\<lambda>i. offsets ! i) (filter (\<lambda>i. (i + 1) mod 4 \<noteq> 0) [0..<length offsets])"

definition normalized :: "real list \<Rightarrow> real list" where
  "normalized offsets =
     map (\<lambda>i. if (i + 1) mod 4 = 0 then offsets ! i
               else (offsets ! i + lowest_negative_offset offsets) / neg_max_plus_pos_max offsets)
       [0..<length offsets]"

definition alpha_one :: "real list \<Rightarrow> bool" where
  "alpha_one xs = (length xs mod 4 = 0 \<and> (\<forall>i < length xs. (i + 1) mod 4 = 0 \<longrightarrow> xs ! i = 1))"


text \<open>
  Two host states that differ at most in the current frame and in \<^verbatim>\<open>bpy.data.meshes\<close>:
  what sampling and encoding touch.
\<close>

definition sampling_only :: "world \<Rightarrow> world \<Rightarrow> bool" where
  "sampling_only w w' =
     (w'\<lparr>frame_current := frame_current w, data_meshes := data_meshes w\<rparr> = w)"


text \<open>A small scene used to instantiate the theorems: two vertices sampled at two frames.\<close>

definition demo_vertex :: "nat \<Rightarrow> vec3 \<Rightarrow> vertex" where
  "demo_vertex k p = \<lparr>vertex.index = k, co = p, normal = (0, 0, 1)\<rparr>"

definition demo_loops :: "loop list" where
  "demo_loops = [\<lparr>loop.index = 0, vertex_index = 0\<rparr>, \<lparr>loop.index = 1, vertex_index = 1\<rparr>,
                 \<lparr>loop.index = 2, vertex_index = 0\<rparr>]"

definition demo_frame0 :: mesh where
  "demo_frame0 = \<lparr>mesh_id = 1, vertices = [demo_vertex 0 (0, 0, 0), demo_vertex 1 (0, 2, 0)],
                  loops = demo_loops, uv_layers = [], users = 0\<rparr>"

definition demo_frame1 :: mesh where
  "demo_frame1 = \<lparr>mesh_id = 2, vertices = [demo_vertex 0 (1, 0, 0), demo_vertex 1 (0, 2, - 3)],
                  loops = demo_loops, uv_layers = [], users = 0\<rparr>"

definition demo_object :: object where
  "demo_object =
     \<lparr>ob_name = ''Cube'', ob_type = ''MESH'', ob_mode = ''OBJECT'',
      ob_data = \<lparr>mesh_id = 0, vertices = vertices demo_frame0, loops = demo_loops,
                 uv_layers = [], users = 1\<rparr>,
      modifiers = [''ARMATURE''],
      evaluated = (\<lambda>i. if i = 1 then (vertices demo_frame1, demo_loops)
                         else (vertices demo_frame0, demo_loops)),
      matrix_world = (\<lambda>i p. p)\<rparr>"

definition demo_world :: world where
  "demo_world =
     \<lparr>frame_start = 0, frame_end = 1, frame_step = 1, frame_current = 0,
      unit_system = ''METRIC'', unit_scale_length = 0.01,
      active_object = Some demo_object, selected_objects = [demo_object], collection_objects = [demo_object],
      filepath = ''/tmp/scene.blend'', data_meshes = [ob_data demo_object],
      data_objects = [demo_object], data_images = [], reports = [], saved_files = []\<rparr>"

text \<open>
  A host rule for recomputed normals, a selection whose base mesh has \<open>n\<close> vertices, and
  a scene whose .blend file was never saved.
\<close>

definition demo_nrm :: "bmesh \<Rightarrow> nat \<Rightarrow> vec3" where
  "demo_nrm bm k = (0, 0, 1)"

definition demo_crowd :: "nat \<Rightarrow> world" where
  "demo_crowd n =
     demo_world\<lparr>selected_objects :=
       [demo_object\<lparr>ob_data :=
          (ob_data demo_object)\<lparr>vertices :=
             map (\<lambda>k. demo_vertex k (real k, 0, 0)) [0..<n]\<rparr>\<rparr>]\<rparr>"

definition demo_unsaved :: world where
  "demo_unsaved = demo_world\<lparr>filepath := []\<rparr>"



section \<open>Properties of the encoder\<close>

lemma length_offset_pixel [simp]: "length (offset_pixel original v) = 4"
  by (simp add: offset_pixel_def split: prod.splits)

lemma length_normal_pixel [simp]: "length (normal_pixel v) = 4"
  by (simp add: normal_pixel_def split: prod.splits)

lemma length_concat_uniform:
  "\<forall>xs \<in> set xss. length xs = k \<Longrightarrow> length (concat xss) = length xss * k"
  by (induction xss) auto

lemma length_frame_offsets [simp]: "length (frame_offsets original m) = 4 * length (vertices m)"
  by (simp add: frame_offsets_def length_concat_uniform [where k = 4])

lemma length_frame_normals [simp]: "length (frame_normals m) = 4 * length (vertices m)"
  by (simp add: frame_normals_def length_concat_uniform [where k = 4])

lemma vertex_loop_run:
  "\<forall>v \<in> set vs. vertex.index v < length original \<Longrightarrow>
   vertex_loop original vs (os, ns) =
     Inr (os @ concat (map (offset_pixel original) vs), ns @ concat (map normal_pixel vs))"
proof (induction vs arbitrary: os ns)
  case Nil
  then show ?case by simp
next
  case (Cons v vs)
  then show ?case
    by (simp add: offset_pixel_def normal_pixel_def split: prod.splits)
qed

lemma mesh_loop_run:
  "\<forall>m \<in> set ms. \<forall>v \<in> set (vertices m). vertex.index v < length original \<Longrightarrow>
   fst (mesh_loop original ms (os, ns) w) =
     Inr (os @ concat (map (frame_offsets original) ms), ns @ concat (map frame_normals ms))"
proof (induction ms arbitrary: os ns w)
  case Nil
  then show ?case by simp
next
  case (Cons m ms)
  then show ?case
    by (simp add: vertex_loop_run frame_offsets_def frame_normals_def)
qed

lemma mesh_wf_index_bound:
  "mesh_wf m \<Longrightarrow> v \<in> set (vertices m) \<Longrightarrow> vertex.index v < length (vertices m)"
proof -
  assume wf: "mesh_wf m" and v: "v \<in> set (vertices m)"
  from v have "vertex.index v \<in> set (map vertex.index (vertices m))" by simp
  with wf show ?thesis by (simp add: mesh_wf_def)
qed

lemma get_vertex_data_run:
  assumes "meshes \<noteq> []"
    and "\<forall>m \<in> set meshes. length (vertices m) = n \<and> mesh_wf m"
  shows "fst (get_vertex_data w meshes) =
     Inr (concat (map (frame_offsets (vertices (hd meshes))) (rev meshes)),
          concat (map frame_normals (rev meshes)))"
proof -
  obtain m0 rest where ms: "meshes = m0 # rest" using assms(1) by (cases meshes) auto
  have n0: "length (vertices m0) = n" using assms(2) ms by simp
  have "\<forall>m \<in> set (rev meshes). \<forall>v \<in> set (vertices m). vertex.index v < length (vertices m0)"
    using assms(2) n0 mesh_wf_index_bound by fastforce
  from mesh_loop_run [OF this, of "[]" "[]" w] show ?thesis
    by (simp add: get_vertex_data_def ms)
qed

text \<open>
  Claim C1. For a non-empty list of well-formed per-frame meshes that all have \<open>n\<close>
  vertices, \<^verbatim>\<open>get_vertex_data\<close> returns (raises nothing) two flat lists, offsets and
  normals, each of length exactly \<open>4 * n * frame_count\<close>.
\<close>

theorem get_vertex_data_lengths:
  assumes "meshes \<noteq> []"
    and "\<forall>m \<in> set meshes. length (vertices m) = n \<and> mesh_wf m"
  shows "\<exists>offsets normals w'.
           get_vertex_data w meshes = (Inr (offsets, normals), w') \<and>
           length offsets = 4 * n * length meshes \<and>
           length normals = 4 * n * length meshes"
proof -
  let ?os = "concat (map (frame_offsets (vertices (hd meshes))) (rev meshes))"
  let ?ns = "concat (map frame_normals (rev meshes))"
  have run: "fst (get_vertex_data w meshes) = Inr (?os, ?ns)"
    by (rule get_vertex_data_run [OF assms])
  have "length ?os = length meshes * (4 * n)"
    using assms(2) by (subst length_concat_uniform [where k = "4 * n"]) auto
  moreover have "length ?ns = length meshes * (4 * n)"
    using assms(2) by (subst length_concat_uniform [where k = "4 * n"]) auto
  ultimately show ?thesis using run
    by (cases "get_vertex_data w meshes") (auto simp: mult.commute)
qed

theorem get_vertex_data_lengths_witness:
  "\<exists>offsets normals w'.
     get_vertex_data demo_world [demo_frame0, demo_frame1] = (Inr (offsets, normals), w') \<and>
     length offsets = 16 \<and> length normals = 16"
proof -
  have ne: "[demo_frame0, demo_frame1] \<noteq> []" by simp
  have ok: "\<forall>m \<in> set [demo_frame0, demo_frame1]. length (vertices m) = 2 \<and> mesh_wf m"
    by (simp add: demo_frame0_def demo_frame1_def demo_vertex_def mesh_wf_def upt_rec)
  from get_vertex_data_lengths [OF ne ok, of demo_world] show ?thesis by simp
qed


lemma drop_concat_uniform:
  "\<forall>xs \<in> set xss. length xs = k \<Longrightarrow> drop (r * k) (concat xss) = concat (drop r xss)"
proof (induction xss arbitrary: r)
  case Nil
  then show ?case by simp
next
  case (Cons xs xss)
  show ?case
  proof (cases r)
    case 0
    then show ?thesis by simp
  next
    case (Suc r')
    with Cons show ?thesis by simp
  qed
qed

lemma take_drop_in_row:
  assumes "\<forall>xs \<in> set xss. length xs = k" and "r < length xss" and "j + m \<le> k"
  shows "take m (drop (r * k + j) (concat xss)) = take m (drop j (xss ! r))"
proof -
  have len: "length (xss ! r) = k" using assms(1,2) by simp
  have "drop (r * k + j) (concat xss) = drop j (drop (r * k) (concat xss))"
    by (simp add: add.commute)
  also have "\<dots> = drop j (concat (drop r xss))"
    by (simp add: drop_concat_uniform [OF assms(1)])
  also have "drop r xss = xss ! r # drop (Suc r) xss"
    using assms(2) by (simp add: Cons_nth_drop_Suc)
  finally have "drop (r * k + j) (concat xss) = drop j (xss ! r) @ concat (drop (Suc r) xss)"
    using len assms(3) by simp
  then show ?thesis using len assms(3) by simp
qed

lemma pixel_in_frame:
  assumes "\<forall>x \<in> set xs. length (f x) = 4" and "v < length xs"
  shows "take 4 (drop (4 * v) (concat (map f xs))) = f (xs ! v)"
proof -
  have "take 4 (drop (v * 4 + 0) (concat (map f xs))) = take 4 (drop 0 (map f xs ! v))"
    by (rule take_drop_in_row) (use assms in auto)
  then show ?thesis using assms by (simp add: mult.commute)
qed

lemma mesh_wf_nth: "mesh_wf m \<Longrightarrow> v < length (vertices m) \<Longrightarrow> vertex.index (vertices m ! v) = v"
proof -
  assume wf: "mesh_wf m" and v: "v < length (vertices m)"
  have "vertex.index (vertices m ! v) = map vertex.index (vertices m) ! v" using v by simp
  also have "\<dots> = v" using wf v by (simp add: mesh_wf_def)
  finally show ?thesis .
qed

text \<open>
  Claim C2. \<^verbatim>\<open>get_vertex_data\<close> emits the frames in reverse order and the vertices of a
  frame in ascending index order: in both flat lists, the four floats of row \<open>r\<close>, column
  \<open>v\<close> (at position \<open>4 * (r * n + v)\<close>) are those of vertex \<open>v\<close> of frame
  \<open>frame_count - 1 - r\<close>, so row 0 is the last frame and the last row is the reference
  frame.
\<close>

theorem get_vertex_data_layout:
  assumes "meshes \<noteq> []"
    and "\<forall>m \<in> set meshes. length (vertices m) = n \<and> mesh_wf m"
    and "r < length meshes" and "v < n"
  shows "\<exists>offsets normals w'.
           get_vertex_data w meshes = (Inr (offsets, normals), w') \<and>
           take 4 (drop (4 * (r * n + v)) offsets) =
             (case vector_sub (co (vertices (meshes ! (length meshes - 1 - r)) ! v))
                              (co (vertices (meshes ! 0) ! v)) of
                (x, y, z) \<Rightarrow> [x, y, z, 1]) \<and>
           take 4 (drop (4 * (r * n + v)) normals) =
             (case normal (vertices (meshes ! (length meshes - 1 - r)) ! v) of
                (nx, ny, nz) \<Rightarrow>
                  [normalize_signed_to_zero_to_one_space nx,
                   normalize_signed_to_zero_to_one_space ny,
                   normalize_signed_to_zero_to_one_space nz, 1])"
proof -
  let ?orig = "vertices (hd meshes)"
  let ?os = "concat (map (frame_offsets ?orig) (rev meshes))"
  let ?ns = "concat (map frame_normals (rev meshes))"
  let ?m = "meshes ! (length meshes - 1 - r)"
  have run: "fst (get_vertex_data w meshes) = Inr (?os, ?ns)"
    by (rule get_vertex_data_run [OF assms(1,2)])
  have m_rev: "rev meshes ! r = ?m"
    using assms(3) by (simp add: rev_nth)
  have m_in: "?m \<in> set meshes" using assms(3) by simp
  have m_len: "length (vertices ?m) = n" and m_wf: "mesh_wf ?m"
    using assms(2) m_in by blast+
  have idx: "vertex.index (vertices ?m ! v) = v"
    using mesh_wf_nth [OF m_wf] m_len assms(4) by simp
  have hd0: "hd meshes = meshes ! 0" using assms(1) by (simp add: hd_conv_nth)
  have "take 4 (drop (r * (4 * n) + 4 * v) ?os) =
        take 4 (drop (4 * v) (map (frame_offsets ?orig) (rev meshes) ! r))"
    by (rule take_drop_in_row) (use assms in auto)
  also have "\<dots> = take 4 (drop (4 * v) (frame_offsets ?orig ?m))"
    using assms(3) m_rev by simp
  also have "\<dots> = offset_pixel ?orig (vertices ?m ! v)"
    unfolding frame_offsets_def
    by (rule pixel_in_frame) (use m_len assms(4) in auto)
  finally have offs: "take 4 (drop (4 * (r * n + v)) ?os) = offset_pixel ?orig (vertices ?m ! v)"
    by (simp add: algebra_simps)
  have "take 4 (drop (r * (4 * n) + 4 * v) ?ns) =
        take 4 (drop (4 * v) (map frame_normals (rev meshes) ! r))"
    by (rule take_drop_in_row) (use assms in auto)
  also have "\<dots> = take 4 (drop (4 * v) (frame_normals ?m))"
    using assms(3) m_rev by simp
  also have "\<dots> = normal_pixel (vertices ?m ! v)"
    unfolding frame_normals_def
    by (rule pixel_in_frame) (use m_len assms(4) in auto)
  finally have nrms: "take 4 (drop (4 * (r * n + v)) ?ns) = normal_pixel (vertices ?m ! v)"
    by (simp add: algebra_simps)
  have offs': "offset_pixel ?orig (vertices ?m ! v) =
      (case vector_sub (co (vertices ?m ! v)) (co (vertices (meshes ! 0) ! v)) of
         (x, y, z) \<Rightarrow> [x, y, z, 1])"
    unfolding offset_pixel_def idx hd0 ..
  obtain res w' where gv: "get_vertex_data w meshes = (res, w')"
    by (cases "get_vertex_data w meshes")
  with run have "res = Inr (?os, ?ns)" by simp
  with gv offs nrms offs' show ?thesis
    unfolding normal_pixel_def by metis
qed

theorem get_vertex_data_layout_witness:
  "\<exists>offsets normals w'.
     get_vertex_data demo_world [demo_frame0, demo_frame1] = (Inr (offsets, normals), w') \<and>
     take 4 (drop 4 offsets) = [0, 0, - 3, 1] \<and>
     take 4 (drop 4 normals) = [1 / 2, 1 / 2, 1, 1]"
proof -
  have ne: "[demo_frame0, demo_frame1] \<noteq> []" by simp
  have ok: "\<forall>m \<in> set [demo_frame0, demo_frame1]. length (vertices m) = 2 \<and> mesh_wf m"
    by (simp add: demo_frame0_def demo_frame1_def demo_vertex_def mesh_wf_def upt_rec)
  have r: "0 < length [demo_frame0, demo_frame1]" and v: "(1::nat) < 2" by simp_all
  from get_vertex_data_layout [OF ne ok r v, of demo_world] show ?thesis
    by (simp add: demo_frame0_def demo_frame1_def demo_vertex_def
        normalize_signed_to_zero_to_one_space_def)
qed

section \<open>Properties of the normaliser\<close>

lemma scan_loop_fold:
  "\<forall>i \<in> set idxs. i < length offsets \<Longrightarrow>
   scan_loop offsets idxs (lo, hi) =
     (fold min (map (\<lambda>i. offsets ! i) (filter (\<lambda>i. (i + 1) mod 4 \<noteq> 0) idxs)) lo,
      fold max (map (\<lambda>i. offsets ! i) (filter (\<lambda>i. (i + 1) mod 4 \<noteq> 0) idxs)) hi)"
  by (induction idxs arbitrary: lo hi) auto

lemma scan_loop_scanned:
  "scan_loop offsets [0..<length offsets] (0, 0) =
     (Min (set (0 # scanned offsets)), Max (set (0 # scanned offsets)))"
  by (simp add: scan_loop_fold scanned_def Min.set_eq_fold Max.set_eq_fold del: set_simps)

lemma lowest_negative_offset_eq:
  "lowest_negative_offset offsets = - Min (insert 0 (set (scanned offsets)))"
  by (simp add: lowest_negative_offset_def scan_loop_scanned)

lemma highest_positive_offset_eq:
  "highest_positive_offset offsets = Max (insert 0 (set (scanned offsets)))"
  by (simp add: highest_positive_offset_def scan_loop_scanned)

lemma lowest_negative_offset_nonneg: "0 \<le> lowest_negative_offset offsets"
  by (simp add: lowest_negative_offset_eq)

lemma highest_positive_offset_nonneg: "0 \<le> highest_positive_offset offsets"
  by (simp add: highest_positive_offset_eq)

lemma neg_max_plus_pos_max_pos: "0 < neg_max_plus_pos_max offsets"
  using lowest_negative_offset_nonneg [of offsets] highest_positive_offset_nonneg [of offsets]
  by (simp add: neg_max_plus_pos_max_def Let_def)

lemma rewrite_loop_run:
  assumes "s \<noteq> 0" and "distinct idxs"
  shows "\<exists>res. rewrite_loop neg s idxs offsets = Inr res \<and> length res = length offsets \<and>
           (\<forall>i < length offsets.
              res ! i = (if i \<in> set idxs \<and> (i + 1) mod 4 \<noteq> 0
                         then (offsets ! i + neg) / s else offsets ! i))"
  using assms(2)
proof (induction idxs arbitrary: offsets)
  case Nil
  then show ?case by simp
next
  case (Cons k idxs)
  show ?case
  proof (cases "k \<ge> length offsets \<or> (k + 1) mod 4 = 0")
    case True
    from Cons.IH [of offsets] Cons.prems obtain res where
      res: "rewrite_loop neg s idxs offsets = Inr res" "length res = length offsets"
        "\<forall>i < length offsets.
              res ! i = (if i \<in> set idxs \<and> (i + 1) mod 4 \<noteq> 0
                         then (offsets ! i + neg) / s else offsets ! i)"
      by auto
    have "rewrite_loop neg s (k # idxs) offsets = Inr res" using True res(1) by auto
    moreover have "\<forall>i < length offsets.
              res ! i = (if i \<in> set (k # idxs) \<and> (i + 1) mod 4 \<noteq> 0
                         then (offsets ! i + neg) / s else offsets ! i)"
      using res(3) True by auto
    ultimately show ?thesis using res(2) by blast
  next
    case False
    let ?o2 = "offsets[k := (offsets ! k + neg) / s]"
    from Cons.IH [of ?o2] Cons.prems obtain res where
      res: "rewrite_loop neg s idxs ?o2 = Inr res" "length res = length ?o2"
        "\<forall>i < length ?o2.
              res ! i = (if i \<in> set idxs \<and> (i + 1) mod 4 \<noteq> 0
                         then (?o2 ! i + neg) / s else ?o2 ! i)"
      by auto
    have "rewrite_loop neg s (k # idxs) offsets = Inr res"
      using False res(1) assms(1) by (simp add: Let_def)
    moreover have "\<forall>i < length offsets.
              res ! i = (if i \<in> set (k # idxs) \<and> (i + 1) mod 4 \<noteq> 0
                         then (offsets ! i + neg) / s else offsets ! i)"
    proof (intro allI impI)
      fix i assume i: "i < length offsets"
      show "res ! i = (if i \<in> set (k # idxs) \<and> (i + 1) mod 4 \<noteq> 0
                         then (offsets ! i + neg) / s else offsets ! i)"
      proof (cases "i = k")
        case True
        then have "k \<notin> set idxs" using Cons.prems by simp
        then show ?thesis using res(3) i True False by simp
      next
        case ne: False
        then show ?thesis using res(3) i by simp
      qed
    qed
    ultimately show ?thesis using res(2) by auto
  qed
qed

lemma rewrite_loop_normalized:
  "rewrite_loop (lowest_negative_offset offsets) (neg_max_plus_pos_max offsets)
     [0..<length offsets] offsets = Inr (normalized offsets)"
proof -
  have s: "neg_max_plus_pos_max offsets \<noteq> 0" using neg_max_plus_pos_max_pos [of offsets] by simp
  from rewrite_loop_run [OF s, of "[0..<length offsets]" "lowest_negative_offset offsets" offsets]
  obtain res where res:
    "rewrite_loop (lowest_negative_offset offsets) (neg_max_plus_pos_max offsets)
       [0..<length offsets] offsets = Inr res"
    "length res = length offsets"
    "\<forall>i < length offsets.
       res ! i = (if i \<in> set [0..<length offsets] \<and> (i + 1) mod 4 \<noteq> 0
                  then (offsets ! i + lowest_negative_offset offsets) / neg_max_plus_pos_max offsets
                  else offsets ! i)"
    by auto
  have "res = normalized offsets"
    by (rule nth_equalityI) (use res(2,3) in \<open>auto simp: normalized_def\<close>)
  with res(1) show ?thesis by simp
qed

lemma bake_vertex_data_run:
  "\<exists>offset_texture normal_texture w'.
     bake_vertex_data w offsets normals texture_size = (Inr (offset_texture, normal_texture), w') \<and>
     image_name offset_texture =
       Offsets_neg_max_pos_max (lowest_negative_offset offsets) (highest_positive_offset offsets) \<and>
     pixels offset_texture = normalized offsets \<and>
     pixels normal_texture = normals \<and>
     width offset_texture = fst texture_size \<and> height offset_texture = snd texture_size \<and>
     width normal_texture = fst texture_size \<and> height normal_texture = snd texture_size"
  by (simp add: bake_vertex_data_def rewrite_loop_normalized images_new_def Let_def)




text \<open>
  In exact arithmetic the shader's inverse \<open>normalized * span - neg_extent\<close> gives back
  every scanned channel.
\<close>

lemma normalized_inverse:
  assumes "i < length offsets" and "(i + 1) mod 4 \<noteq> 0"
  shows "normalized offsets ! i * neg_max_plus_pos_max offsets - lowest_negative_offset offsets
           = offsets ! i"
  using assms neg_max_plus_pos_max_pos [of offsets] by (simp add: normalized_def)

lemma scanned_update_alpha:
  assumes "(i + 1) mod 4 = 0"
  shows "scanned (offsets[i := a]) = scanned offsets"
proof -
  have "offsets[i := a] ! k = offsets ! k" if "(k + 1) mod 4 \<noteq> 0" for k
  proof -
    from that assms have "k \<noteq> i" by auto
    then show ?thesis by simp
  qed
  then show ?thesis by (simp add: scanned_def)
qed

lemma alpha_one_append:
  assumes "alpha_one xs"
  shows "alpha_one (xs @ [a, b, c, 1])"
proof -
  have len: "length xs mod 4 = 0" using assms by (simp add: alpha_one_def)
  have "(xs @ [a, b, c, 1]) ! i = 1"
    if i: "i < length xs + 4" and al: "(i + 1) mod 4 = 0" for i
  proof (cases "i < length xs")
    case True
    then show ?thesis using assms al by (simp add: alpha_one_def nth_append)
  next
    case False
    then have "i - length xs = 3" using i al len by presburger
    then show ?thesis using False by (simp add: nth_append)
  qed
  then show ?thesis using len by (simp add: alpha_one_def)
qed


lemma vertex_loop_alpha:
  "vertex_loop original vs (os, ns) = Inr (os', ns') \<Longrightarrow>
   alpha_one os \<Longrightarrow> alpha_one ns \<Longrightarrow> length os = length ns \<Longrightarrow>
   alpha_one os' \<and> alpha_one ns' \<and> length os' = length ns'"
proof (induction vs arbitrary: os ns)
  case Nil
  then show ?case by simp
next
  case (Cons v vs)
  obtain x y z where d: "vector_sub (co v) (co (original ! vertex.index v)) = (x, y, z)"
    by (cases "vector_sub (co v) (co (original ! vertex.index v))") auto
  obtain nx ny nz where n: "normal v = (nx, ny, nz)"
    by (cases "normal v") auto
  let ?os = "os @ [x, y, z, 1]"
  let ?ns = "ns @ [normalize_signed_to_zero_to_one_space nx,
                   normalize_signed_to_zero_to_one_space ny,
                   normalize_signed_to_zero_to_one_space nz, 1]"
  from Cons.prems(1) have run: "vertex_loop original vs (?os, ?ns) = Inr (os', ns')"
    by (simp add: d n split: if_splits)
  show ?case
    by (rule Cons.IH [OF run])
      (use Cons.prems in \<open>simp_all add: alpha_one_append\<close>)
qed

lemma mesh_loop_alpha:
  "mesh_loop original ms (os, ns) w = (Inr (os', ns'), w') \<Longrightarrow>
   alpha_one os \<Longrightarrow> alpha_one ns \<Longrightarrow> length os = length ns \<Longrightarrow>
   alpha_one os' \<and> alpha_one ns' \<and> length os' = length ns'"
proof (induction ms arbitrary: os ns w)
  case Nil
  then show ?case by simp
next
  case (Cons m ms)
  from Cons.prems(1) obtain os1 ns1 where
    inner: "vertex_loop original (vertices m) (os, ns) = Inr (os1, ns1)"
    and rest: "mesh_loop original ms (os1, ns1)
                 (if users m = 0 then meshes_remove m w else w) = (Inr (os', ns'), w')"
    by (auto split: sum.splits)
  from vertex_loop_alpha [OF inner Cons.prems(2-4)]
  have "alpha_one os1" "alpha_one ns1" "length os1 = length ns1" by simp_all
  with Cons.IH [OF rest] show ?case by simp
qed

lemma get_vertex_data_alpha:
  assumes "get_vertex_data w meshes = (Inr (offsets, normals), w')"
  shows "alpha_one offsets \<and> alpha_one normals \<and> length offsets = length normals"
proof -
  from assms obtain m0 rest where ms: "meshes = m0 # rest"
    by (cases meshes) (auto simp: get_vertex_data_def)
  with assms have "mesh_loop (vertices m0) (rev meshes) ([], []) w = (Inr (offsets, normals), w')"
    by (simp add: get_vertex_data_def)
  from mesh_loop_alpha [OF this] show ?thesis by (simp add: alpha_one_def)
qed

text \<open>
  Claim C4. In the two lists \<^verbatim>\<open>get_vertex_data\<close> returns, every 4th element equals 1.
  These elements are excluded from the extent scan (the extents do not depend on their
  value) and from the rewrite, so they are still 1 in the pixels of both textures.
\<close>

theorem alpha_channel_is_one:
  assumes "get_vertex_data w meshes = (Inr (offsets, normals), w1)"
    and "bake_vertex_data w1 offsets normals texture_size =
           (Inr (offset_texture, normal_texture), w2)"
    and "i < length offsets" and "(i + 1) mod 4 = 0"
  shows "length offsets mod 4 = 0 \<and> length normals = length offsets \<and>
         offsets ! i = 1 \<and> normals ! i = 1 \<and>
         length (pixels offset_texture) = length offsets \<and>
         length (pixels normal_texture) = length normals \<and>
         pixels offset_texture ! i = 1 \<and> pixels normal_texture ! i = 1 \<and>
         lowest_negative_offset (offsets[i := a]) = lowest_negative_offset offsets \<and>
         highest_positive_offset (offsets[i := a]) = highest_positive_offset offsets"
proof -
  from get_vertex_data_alpha [OF assms(1)]
  have al: "alpha_one offsets" "alpha_one normals" "length offsets = length normals"
    by simp_all
  have o1: "offsets ! i = 1" and n1: "normals ! i = 1"
    using al assms(3,4) by (simp_all add: alpha_one_def)
  from bake_vertex_data_run [of w1 offsets normals texture_size] assms(2)
  have px: "pixels offset_texture = normalized offsets" "pixels normal_texture = normals"
    by auto
  have "normalized offsets ! i = offsets ! i"
    using assms(3,4) by (simp add: normalized_def)
  moreover have "length (normalized offsets) = length offsets"
    by (simp add: normalized_def)
  moreover have "lowest_negative_offset (offsets[i := a]) = lowest_negative_offset offsets"
    "highest_positive_offset (offsets[i := a]) = highest_positive_offset offsets"
    by (simp_all add: lowest_negative_offset_eq highest_positive_offset_eq
        scanned_update_alpha [OF assms(4)])
  ultimately show ?thesis
    using al o1 n1 px by (simp add: alpha_one_def)
qed


theorem alpha_channel_is_one_witness:
  "\<exists>offsets normals offset_texture normal_texture w1 w2.
     get_vertex_data demo_world [demo_frame0, demo_frame1] = (Inr (offsets, normals), w1) \<and>
     bake_vertex_data w1 offsets normals (2, 2) = (Inr (offset_texture, normal_texture), w2) \<and>
     length offsets = 16 \<and> offsets ! 3 = 1 \<and> normals ! 3 = 1 \<and>
     pixels offset_texture ! 3 = 1 \<and> pixels normal_texture ! 3 = 1"
proof -
  let ?ms = "[demo_frame0, demo_frame1]"
  have ok: "\<forall>m \<in> set ?ms. length (vertices m) = 2 \<and> mesh_wf m"
    by (simp add: demo_frame0_def demo_frame1_def demo_vertex_def mesh_wf_def upt_rec)
  have "?ms \<noteq> []" by simp
  from get_vertex_data_run [OF this ok, of demo_world]
  obtain offsets normals w1 where
    gv: "get_vertex_data demo_world ?ms = (Inr (offsets, normals), w1)"
    and os: "offsets = concat (map (frame_offsets (vertices (hd ?ms))) (rev ?ms))"
    by (cases "get_vertex_data demo_world ?ms") auto
  have len: "length offsets = 16"
    by (simp add: os demo_frame0_def demo_frame1_def)
  from bake_vertex_data_run [of w1 offsets normals "(2, 2)"]
  obtain offset_texture normal_texture w2 where
    bk: "bake_vertex_data w1 offsets normals (2, 2) = (Inr (offset_texture, normal_texture), w2)"
    by blast
  have i: "3 < length offsets" and al: "(3 + 1) mod 4 = (0::nat)"
    by (simp_all add: len)
  from alpha_channel_is_one [OF gv bk i al] gv bk len show ?thesis by blast
qed

section \<open>Properties of the export mesh\<close>






section \<open>Properties of the operator\<close>

lemma sampling_only_refl [simp]: "sampling_only w w"
  by (simp add: sampling_only_def)

lemma sampling_only_trans: "sampling_only w w1 \<Longrightarrow> sampling_only w1 w2 \<Longrightarrow> sampling_only w w2"
  unfolding sampling_only_def by (cases w, cases w1, cases w2) simp

lemma sampling_only_fields:
  assumes "sampling_only w w'"
  shows "data_images w' = data_images w" and "data_objects w' = data_objects w"
    and "collection_objects w' = collection_objects w" and "saved_files w' = saved_files w"
    and "filepath w' = filepath w" and "reports w' = reports w"
    and "selected_objects w' = selected_objects w"
    and "frame_start w' = frame_start w" and "frame_end w' = frame_end w"
    and "frame_step w' = frame_step w"
  using assms unfolding sampling_only_def by (cases w, cases w', simp)+

lemma object_loop_sampling_only: "sampling_only w (snd (object_loop obs bm w))"
proof (induction obs arbitrary: bm w)
  case Nil
  then show ?case by simp
next
  case (Cons ob obs)
  let ?me = "fst (meshes_new_from_object ob w)"
  let ?w1 = "snd (meshes_new_from_object ob w)"
  let ?me' = "mesh_transform (matrix_world ob (frame_current ?w1)) ?me"
  let ?w3 = "meshes_remove ?me' (mesh_write ?me' ?w1)"
  have step: "object_loop (ob # obs) bm w = object_loop obs (from_mesh bm ?me') ?w3"
    by (simp add: Let_def split_beta)
  have a: "sampling_only w ?w3"
    by (simp add: meshes_new_from_object_def sampling_only_def meshes_remove_def
        mesh_write_def meshes_add_def Let_def)
  have b: "sampling_only ?w3 (snd (object_loop obs (from_mesh bm ?me') ?w3))"
    by (rule Cons.IH)
  show ?case unfolding step by (rule sampling_only_trans [OF a b])
qed

lemma frame_loop_sampling_only: "sampling_only w (snd (frame_loop nrm obs frames acc w))"
proof (induction frames arbitrary: acc w)
  case Nil
  then show ?case by simp
next
  case (Cons i frames)
  let ?w1 = "w\<lparr>frame_current := i\<rparr>"
  let ?r = "object_loop obs \<lparr>bm_verts = [], bm_loops = []\<rparr> ?w1"
  let ?w3 = "snd (meshes_new (snd ?r))"
  let ?me' = "to_mesh (normal_update nrm (fst ?r)) (fst (meshes_new (snd ?r)))"
  let ?w4 = "mesh_write ?me' ?w3"
  have step: "frame_loop nrm obs (i # frames) acc w = frame_loop nrm obs frames (acc @ [?me']) ?w4"
    by (simp add: Let_def split_beta)
  have a: "sampling_only w ?w1" by (simp add: sampling_only_def)
  have b: "sampling_only ?w1 (snd ?r)" by (rule object_loop_sampling_only)
  have c: "sampling_only (snd ?r) ?w4"
    by (simp add: meshes_new_def sampling_only_def mesh_write_def meshes_add_def Let_def)
  have d: "sampling_only ?w4 (snd (frame_loop nrm obs frames (acc @ [?me']) ?w4))"
    by (rule Cons.IH)
  show ?case unfolding step
    by (rule sampling_only_trans [OF sampling_only_trans [OF sampling_only_trans [OF a b] c] d])
qed

lemma mesh_loop_sampling_only: "sampling_only w (snd (mesh_loop original ms acc w))"
proof (induction ms arbitrary: acc w)
  case Nil
  then show ?case by simp
next
  case (Cons m ms)
  show ?case
  proof (cases "vertex_loop original (vertices m) acc")
    case (Inl e)
    then show ?thesis by simp
  next
    case (Inr acc')
    let ?w1 = "if users m = 0 then meshes_remove m w else w"
    have step: "mesh_loop original (m # ms) acc w = mesh_loop original ms acc' ?w1"
      using Inr by simp
    have a: "sampling_only w ?w1" by (simp add: sampling_only_def meshes_remove_def)
    have b: "sampling_only ?w1 (snd (mesh_loop original ms acc' ?w1))" by (rule Cons.IH)
    show ?thesis unfolding step by (rule sampling_only_trans [OF a b])
  qed
qed

lemma get_vertex_data_sampling_only: "sampling_only w (snd (get_vertex_data w meshes))"
  by (cases meshes) (simp_all add: get_vertex_data_def mesh_loop_sampling_only)

lemma get_per_frame_mesh_data_sampling_only:
  "sampling_only w (snd (get_per_frame_mesh_data nrm w obs))"
  by (cases "frame_range w")
    (simp_all add: get_per_frame_mesh_data_def split_beta frame_loop_sampling_only)


lemma sample_and_bake_not_cancelled: "fst (sample_and_bake nrm sz w) \<noteq> CANCELLED"
  by (simp add: sample_and_bake_def split_beta Let_def
      split: prod.splits sum.splits list.splits option.splits)

lemma get_per_frame_mesh_data_error:
  "fst (get_per_frame_mesh_data nrm w obs) = Inl e \<Longrightarrow> e = ValueError"
  by (auto simp: get_per_frame_mesh_data_def frame_range_def py_range_def split_beta
      split: if_splits sum.splits)

lemma uv_loop_error: "fst (uv_loop n ls d) = Some e \<Longrightarrow> e \<noteq> RuntimeError"
  by (induction ls arbitrary: d) (auto split: if_splits)

lemma create_export_mesh_object_world:
  assumes "create_export_mesh_object w me = (r, w')"
  shows "(\<exists>e. r = Inl e \<and> e \<noteq> RuntimeError \<and> sampling_only w w') \<or>
         (\<exists>ob. r = Inr ob \<and>
            sampling_only
              (w\<lparr>data_objects := data_objects w @ [ob],
                 collection_objects := collection_objects w @ [ob]\<rparr>) w')"
proof -
  let ?me1 = "uv_layers_while me"
  let ?uv = "(uv_layers ?me1 ! 1)\<lparr>name := ''vertex_anim''\<rparr>"
  let ?res = "uv_loop (length (vertices ?me1)) (loops ?me1) (data ?uv)"
  show ?thesis
  proof (cases "fst ?res")
    case None
    with assms show ?thesis
      by (auto simp: create_export_mesh_object_def Let_def split_beta sampling_only_def
          mesh_write_def)
  next
    case (Some e)
    with assms uv_loop_error [OF Some] show ?thesis
      by (auto simp: create_export_mesh_object_def Let_def split_beta sampling_only_def
          mesh_write_def)
  qed
qed

lemma vertex_loop_error: "vertex_loop original vs acc = Inl e \<Longrightarrow> e = IndexError"
proof (induction vs arbitrary: acc)
  case Nil
  then show ?case by simp
next
  case (Cons v vs)
  obtain os ns where acc: "acc = (os, ns)" by (cases acc)
  from Cons show ?case unfolding acc
    by (auto split: if_splits prod.splits)
qed

lemma mesh_loop_error: "fst (mesh_loop original ms acc w) = Inl e \<Longrightarrow> e = IndexError"
proof (induction ms arbitrary: acc w)
  case Nil
  then show ?case by simp
next
  case (Cons m ms)
  then show ?case
    by (cases "vertex_loop original (vertices m) acc") (auto dest: vertex_loop_error)
qed

lemma get_vertex_data_error: "fst (get_vertex_data w meshes) = Inl e \<Longrightarrow> e = IndexError"
  by (cases meshes) (auto simp: get_vertex_data_def dest: mesh_loop_error)

lemma bake_vertex_data_world:
  "\<exists>ot nt w'. bake_vertex_data w offsets normals sz = (Inr (ot, nt), w') \<and>
      length (data_images w') = length (data_images w) + 2 \<and>
      data_objects w' = data_objects w \<and> saved_files w' = saved_files w \<and>
      filepath w' = filepath w"
  by (simp add: bake_vertex_data_def rewrite_loop_normalized images_new_def Let_def
      image_write_def)

lemma sample_and_bake_RuntimeError:
  assumes "sample_and_bake nrm sz w = (Raised RuntimeError, w')"
  shows "filepath w = [] \<and>
         length (data_images w') = length (data_images w) + 2 \<and>
         length (data_objects w') = length (data_objects w) + 1 \<and>
         saved_files w' = saved_files w"
proof -
  obtain r1 w1 where s1: "get_per_frame_mesh_data nrm w (objects w) = (r1, w1)"
    by (cases "get_per_frame_mesh_data nrm w (objects w)")
  have f1: "sampling_only w w1"
    using get_per_frame_mesh_data_sampling_only [of w nrm "objects w"] s1 by simp
  show ?thesis
  proof (cases r1)
    case (Inl e)
    with get_per_frame_mesh_data_error [of nrm w "objects w" e] s1 assms show ?thesis
      by (simp add: sample_and_bake_def)
  next
    case (Inr meshes)
    show ?thesis
    proof (cases meshes)
      case Nil
      with Inr s1 assms show ?thesis by (simp add: sample_and_bake_def)
    next
      case (Cons m0 rest)
      obtain em w2 where s2: "mesh_copy m0 w1 = (em, w2)" by (cases "mesh_copy m0 w1")
      have f2: "sampling_only w1 w2"
        using s2 by (auto simp: mesh_copy_def meshes_add_def Let_def sampling_only_def)
      obtain r3 w3 where s3: "create_export_mesh_object w2 em = (r3, w3)"
        by (cases "create_export_mesh_object w2 em")
      from create_export_mesh_object_world [OF s3] show ?thesis
      proof (elim disjE exE conjE)
        fix e assume "r3 = Inl e" "e \<noteq> RuntimeError"
        with Inr Cons s1 s2 s3 assms show ?thesis by (simp add: sample_and_bake_def)
      next
        fix ob assume r3: "r3 = Inr ob"
          and f3: "sampling_only (w2\<lparr>data_objects := data_objects w2 @ [ob],
                     collection_objects := collection_objects w2 @ [ob]\<rparr>) w3"
        obtain r4 w4 where s4: "get_vertex_data w3 meshes = (r4, w4)"
          by (cases "get_vertex_data w3 meshes")
        have f4: "sampling_only w3 w4"
          using get_vertex_data_sampling_only [of w3 meshes] s4 by simp
        show ?thesis
        proof (cases r4)
          case (Inl e)
          with get_vertex_data_error [of w3 meshes e] s4 Inr Cons s1 s2 s3 r3 assms
          show ?thesis by (simp add: sample_and_bake_def)
        next
          case r4: (Inr on)
          obtain os ns where on: "on = (os, ns)" by (cases on)
          from bake_vertex_data_world [of w4 os ns sz] obtain ot nt w5 where
            s5: "bake_vertex_data w4 os ns sz = (Inr (ot, nt), w5)"
            and f5: "length (data_images w5) = length (data_images w4) + 2"
              "data_objects w5 = data_objects w4" "saved_files w5 = saved_files w4"
              "filepath w5 = filepath w4"
            by blast
          have run: "sample_and_bake nrm sz w =
            (case save_image_exr w5 ot of
               (Some e, w6) \<Rightarrow> (Raised e, w6)
             | (None, w6) \<Rightarrow>
                (case save_image_exr w6 nt of
                   (Some e, w7) \<Rightarrow> (Raised e, w7)
                 | (None, w7) \<Rightarrow> (FINISHED, w7)))"
            using Inr Cons s1 s2 s3 r3 s4 r4 on s5 by (simp add: sample_and_bake_def)
          have fp: "filepath w5 = []" and w': "w' = w5"
            using assms unfolding run
            by (auto simp: save_image_exr_def Let_def image_write_def split: if_splits)
          have "data_images w4 = data_images w" "saved_files w4 = saved_files w"
            "filepath w4 = filepath w" "data_objects w4 = data_objects w @ [ob]"
            using sampling_only_fields [OF f1] sampling_only_fields [OF f2]
              sampling_only_fields [OF f3] sampling_only_fields [OF f4]
            by simp_all
          then show ?thesis using f5 fp w' by simp
        qed
      qed
    qed
  qed
qed


text \<open>
  Claim C7. When the modifier and unit checks pass, \<^verbatim>\<open>execute\<close> with a vertex count
  above 8192 (or, that passing, a frame count above 8192) returns \<^verbatim>\<open>CANCELLED\<close> with the
  limit report and an otherwise unchanged host state (no frame was set, no mesh, object,
  image or file created); with both counts at most 8192 it passes the checks and goes on
  to sample.
\<close>

theorem execute_limit_checks:
  assumes "frame_range w = Inr frames"
    and "find (\<lambda>t. t \<notin> set allowed_modifiers) (concat (map modifiers (objects w))) = None"
    and "unit_system w = ''METRIC''" and "round2 (unit_scale_length w) = 0.01"
  shows "execute nrm w =
           (if vertex_count w > 8192 then
              (CANCELLED, w\<lparr>reports := reports w @ [Vertex_count_exceeds_limit (vertex_count w)]\<rparr>)
            else if length frames > 8192 then
              (CANCELLED, w\<lparr>reports := reports w @ [Frame_count_exceeds_limit (length frames)]\<rparr>)
            else sample_and_bake nrm (vertex_count w, length frames) w) \<and>
         (vertex_count w \<le> 8192 \<and> length frames \<le> 8192 \<longrightarrow> fst (execute nrm w) \<noteq> CANCELLED)"
  using assms sample_and_bake_not_cancelled [of nrm "(vertex_count w, length frames)" w]
  by (simp add: execute_def report_def)

lemma demo_checks:
  "find (\<lambda>t. t \<notin> set allowed_modifiers) (concat (map modifiers (objects (demo_crowd n)))) = None"
  "unit_system (demo_crowd n) = ''METRIC''"
  "round2 (unit_scale_length (demo_crowd n)) = 0.01"
  "frame_range (demo_crowd n) = Inr [0, 1]"
  "vertex_count (demo_crowd n) = n"
proof -
  have scene: "frame_start (demo_crowd n) = 0" "frame_end (demo_crowd n) = 1"
    "frame_step (demo_crowd n) = 1"
    by (simp_all add: demo_crowd_def demo_world_def)
  show "frame_range (demo_crowd n) = Inr [0, 1]"
    by (simp add: frame_range_def py_range_def range_length_def scene upt_rec)
qed (simp_all add: demo_crowd_def demo_world_def demo_object_def objects_def
      allowed_modifiers_def round2_def round_half_even_def vertex_count_def)

theorem execute_limit_checks_witness:
  "execute demo_nrm (demo_crowd 8193) =
     (CANCELLED, (demo_crowd 8193)\<lparr>reports := [Vertex_count_exceeds_limit 8193]\<rparr>) \<and>
   fst (execute demo_nrm (demo_crowd 8192)) \<noteq> CANCELLED"
proof -
  have r: "reports (demo_crowd 8193) = []" by (simp add: demo_crowd_def demo_world_def)
  note over = demo_checks [of 8193] and at_limit = demo_checks [of 8192]
  have a: "execute demo_nrm (demo_crowd 8193) =
     (CANCELLED, (demo_crowd 8193)\<lparr>reports := [Vertex_count_exceeds_limit 8193]\<rparr>)"
    using execute_limit_checks [OF over(4) over(1) over(2) over(3), of demo_nrm]
    by (simp add: demo_checks(5) r)
  have "vertex_count (demo_crowd 8192) \<le> 8192 \<and> length [0::int, 1] \<le> 8192"
    by (simp add: demo_checks(5))
  with execute_limit_checks [OF at_limit(4) at_limit(1) at_limit(2) at_limit(3), of demo_nrm]
  have b: "fst (execute demo_nrm (demo_crowd 8192)) \<noteq> CANCELLED"
    by blast
  from a b show ?thesis by (rule conjI)
qed


lemma execute_cancelled:
  assumes "fst (execute nrm w) = CANCELLED"
  shows "\<exists>r. execute nrm w = (CANCELLED, w\<lparr>reports := reports w @ [r]\<rparr>)"
proof (cases "frame_range w")
  case (Inl e)
  with assms show ?thesis by (simp add: execute_def)
next
  case (Inr frames)
  let ?bad = "find (\<lambda>t. t \<notin> set allowed_modifiers) (concat (map modifiers (objects w)))"
  show ?thesis
  proof (cases ?bad)
    case (Some t)
    with Inr have "execute nrm w = (CANCELLED, w\<lparr>reports := reports w @ [Modifier_not_allowed t]\<rparr>)"
      by (simp add: execute_def report_def)
    then show ?thesis by (rule exI)
  next
    case None
    show ?thesis
    proof (cases "unit_system w \<noteq> ''METRIC'' \<or> round2 (unit_scale_length w) \<noteq> 0.01")
      case True
      with Inr None
      have "execute nrm w = (CANCELLED, w\<lparr>reports := reports w @ [Scene_unit_must_be_metric]\<rparr>)"
        unfolding execute_def report_def by simp
      then show ?thesis by (rule exI)
    next
      case units: False
      show ?thesis
      proof (cases "vertex_count w > 8192")
        case True
        with Inr None units
        have "execute nrm w =
          (CANCELLED, w\<lparr>reports := reports w @ [Vertex_count_exceeds_limit (vertex_count w)]\<rparr>)"
          unfolding execute_def report_def by simp
        then show ?thesis by (rule exI)
      next
        case vc: False
        show ?thesis
        proof (cases "length frames > 8192")
          case True
          with Inr None units vc
          have "execute nrm w =
            (CANCELLED, w\<lparr>reports := reports w @ [Frame_count_exceeds_limit (length frames)]\<rparr>)"
            unfolding execute_def report_def by simp
          then show ?thesis by (rule exI)
        next
          case False
          with Inr None units vc
          have "execute nrm w = sample_and_bake nrm (vertex_count w, length frames) w"
            unfolding execute_def by simp
          with assms sample_and_bake_not_cancelled [of nrm "(vertex_count w, length frames)" w]
          show ?thesis by simp
        qed
      qed
    qed
  qed
qed

lemma execute_RuntimeError:
  assumes "fst (execute nrm w) = Raised RuntimeError"
  shows "\<exists>sz. execute nrm w = sample_and_bake nrm sz w"
proof (cases "frame_range w")
  case (Inl e)
  then have "e = ValueError"
    by (auto simp: frame_range_def py_range_def split: if_splits)
  with Inl assms show ?thesis by (simp add: execute_def)
next
  case (Inr frames)
  let ?bad = "find (\<lambda>t. t \<notin> set allowed_modifiers) (concat (map modifiers (objects w)))"
  show ?thesis
  proof (cases ?bad)
    case (Some t)
    with Inr assms show ?thesis by (simp add: execute_def)
  next
    case None
    let ?u = "unit_system w \<noteq> ''METRIC'' \<or> round2 (unit_scale_length w) \<noteq> 0.01"
    have eq: "execute nrm w =
        (if ?u then (CANCELLED, report Scene_unit_must_be_metric w)
         else if vertex_count w > 8192 then
           (CANCELLED, report (Vertex_count_exceeds_limit (vertex_count w)) w)
         else if length frames > 8192 then
           (CANCELLED, report (Frame_count_exceeds_limit (length frames)) w)
         else sample_and_bake nrm (vertex_count w, length frames) w)"
      unfolding execute_def Inr None by simp
    show ?thesis
    proof (cases "?u \<or> vertex_count w > 8192 \<or> length frames > 8192")
      case True
      then have "fst (execute nrm w) = CANCELLED" unfolding eq by auto
      with assms show ?thesis by simp
    next
      case False
      then have "execute nrm w = sample_and_bake nrm (vertex_count w, length frames) w"
        unfolding eq by auto
      then show ?thesis by (rule exI)
    qed
  qed
qed

text \<open>
  Claim C9, amended. Every failure found by the upfront validation (modifier, scene unit,
  vertex limit, frame limit) cancels before any sampling and leaves the host state
  unchanged but for the report. The no-save-target error is not among them: it is raised
  by \<^verbatim>\<open>save_image_exr\<close> after sampling, when the export mesh object and both textures
  have been created and no file has been written.
\<close>

theorem validation_failures_leave_no_output:
  "(fst (execute nrm w) = CANCELLED \<longrightarrow>
      (\<exists>r. snd (execute nrm w) = w\<lparr>reports := reports w @ [r]\<rparr>)) \<and>
   (fst (execute nrm w) = Raised RuntimeError \<longrightarrow>
      filepath w = [] \<and>
      length (data_images (snd (execute nrm w))) = length (data_images w) + 2 \<and>
      length (data_objects (snd (execute nrm w))) = length (data_objects w) + 1 \<and>
      saved_files (snd (execute nrm w)) = saved_files w)"
proof (rule conjI; rule impI)
  assume "fst (execute nrm w) = CANCELLED"
  from execute_cancelled [OF this] obtain r where
    "execute nrm w = (CANCELLED, w\<lparr>reports := reports w @ [r]\<rparr>)" ..
  then have "snd (execute nrm w) = w\<lparr>reports := reports w @ [r]\<rparr>" by simp
  then show "\<exists>r. snd (execute nrm w) = w\<lparr>reports := reports w @ [r]\<rparr>" by (rule exI)
next
  assume r: "fst (execute nrm w) = Raised RuntimeError"
  from execute_RuntimeError [OF r] obtain sz where
    run: "execute nrm w = sample_and_bake nrm sz w" ..
  have "sample_and_bake nrm sz w = (Raised RuntimeError, snd (execute nrm w))"
    using r run by (metis prod.collapse)
  from sample_and_bake_RuntimeError [OF this]
  show "filepath w = [] \<and>
      length (data_images (snd (execute nrm w))) = length (data_images w) + 2 \<and>
      length (data_objects (snd (execute nrm w))) = length (data_objects w) + 1 \<and>
      saved_files (snd (execute nrm w)) = saved_files w" .
qed

text \<open>
  Claim C9 as stated fails: with a never-saved .blend file the invocation fails with
  \<^verbatim>\<open>RuntimeError\<close> after sampling (the scene is left at frame 1), with the export mesh
  object and both textures created.
\<close>

theorem no_save_target_counterexample:
  "(case execute demo_nrm demo_unsaved of
      (res, w') \<Rightarrow>
        res = Raised RuntimeError \<and> frame_current demo_unsaved = 0 \<and> frame_current w' = 1 \<and>
        length (data_objects demo_unsaved) = 1 \<and> map ob_name (data_objects w') = [''Cube'', ''export_mesh''] \<and>
        data_images demo_unsaved = [] \<and> map image_name (data_images w') = [Offsets_neg_max_pos_max 3 1, Normals])"
  by code_simp


theorem validation_failures_leave_no_output_witness:
  "snd (execute demo_nrm (demo_crowd 8193)) =
     (demo_crowd 8193)\<lparr>reports := [Vertex_count_exceeds_limit 8193]\<rparr> \<and>
   filepath demo_unsaved = [] \<and>
   length (data_images (snd (execute demo_nrm demo_unsaved))) = 2 \<and>
   length (data_objects (snd (execute demo_nrm demo_unsaved))) = 2 \<and>
   saved_files (snd (execute demo_nrm demo_unsaved)) = []"
proof -
  have a: "execute demo_nrm (demo_crowd 8193) =
     (CANCELLED, (demo_crowd 8193)\<lparr>reports := [Vertex_count_exceeds_limit 8193]\<rparr>)"
    by (simp add: execute_def demo_checks report_def)
      (simp add: demo_crowd_def demo_world_def)
  have b: "fst (execute demo_nrm demo_unsaved) = Raised RuntimeError"
    by code_simp
  have c: "data_images demo_unsaved = []" "length (data_objects demo_unsaved) = 1"
    "saved_files demo_unsaved = []"
    by (simp_all add: demo_unsaved_def demo_world_def)
  from validation_failures_leave_no_output [of demo_nrm "demo_crowd 8193"]
    validation_failures_leave_no_output [of demo_nrm demo_unsaved]
  show ?thesis using a b c by auto
qed














section \<open>The texture size and the sampled meshes\<close>














end
